theory Spec2Isabelle
  imports Complex_Main
begin

text \<open>
  The two root finders of the finance library and the entry points built on them:
  \<open>seekZero\<close>, a scan in steps of 1 and 0.01 that \<open>IRR\<close> runs on a net present
  value with a counter of evaluations, and the Newton iteration of \<open>XIRR\<close> on
  \<open>sumEq\<close> and \<open>durYear\<close>. The definitions follow \<open>finance.ts\<close> statement by
  statement; the properties come after them.
\<close>

section \<open>Numbers\<close>

text \<open>
  The library computes with JavaScript numbers. This development idealises a finite
  number as the real it denotes: no rounding, no overflow or underflow, one zero.
  The values \<open>Infinity\<close>, \<open>-Infinity\<close> and \<open>NaN\<close> are kept, because the code
  reaches them by dividing by zero and then goes on computing and comparing with them.
  A zero divisor is taken as \<open>+0\<close>: the divisors of this library are sums started at
  \<open>0\<close> and powers of \<open>1 + r\<close>, which are never \<open>-0\<close>.
\<close>

datatype jsnum = Fin real | PInf | NInf | NaN

fun jneg :: "jsnum \<Rightarrow> jsnum" where
  "jneg (Fin a) = Fin (- a)"
| "jneg PInf = NInf"
| "jneg NInf = PInf"
| "jneg NaN = NaN"

fun jadd :: "jsnum \<Rightarrow> jsnum \<Rightarrow> jsnum" where
  "jadd (Fin a) (Fin b) = Fin (a + b)"
| "jadd NaN _ = NaN"
| "jadd _ NaN = NaN"
| "jadd PInf NInf = NaN"
| "jadd NInf PInf = NaN"
| "jadd PInf _ = PInf"
| "jadd _ PInf = PInf"
| "jadd NInf _ = NInf"
| "jadd _ NInf = NInf"

definition jsub :: "jsnum \<Rightarrow> jsnum \<Rightarrow> jsnum" where
  "jsub a b = jadd a (jneg b)"

fun jmul :: "jsnum \<Rightarrow> jsnum \<Rightarrow> jsnum" where
  "jmul (Fin a) (Fin b) = Fin (a * b)"
| "jmul NaN _ = NaN"
| "jmul _ NaN = NaN"
| "jmul (Fin a) PInf = (if a = 0 then NaN else if 0 < a then PInf else NInf)"
| "jmul (Fin a) NInf = (if a = 0 then NaN else if 0 < a then NInf else PInf)"
| "jmul PInf (Fin b) = (if b = 0 then NaN else if 0 < b then PInf else NInf)"
| "jmul NInf (Fin b) = (if b = 0 then NaN else if 0 < b then NInf else PInf)"
| "jmul PInf PInf = PInf"
| "jmul NInf NInf = PInf"
| "jmul PInf NInf = NInf"
| "jmul NInf PInf = NInf"

fun jdiv :: "jsnum \<Rightarrow> jsnum \<Rightarrow> jsnum" where
  "jdiv (Fin a) (Fin b) =
     (if b \<noteq> 0 then Fin (a / b)
      else if 0 < a then PInf else if a < 0 then NInf else NaN)"
| "jdiv NaN _ = NaN"
| "jdiv _ NaN = NaN"
| "jdiv (Fin a) PInf = Fin 0"
| "jdiv (Fin a) NInf = Fin 0"
| "jdiv PInf (Fin b) = (if 0 \<le> b then PInf else NInf)"
| "jdiv NInf (Fin b) = (if 0 \<le> b then NInf else PInf)"
| "jdiv PInf PInf = NaN"
| "jdiv PInf NInf = NaN"
| "jdiv NInf PInf = NaN"
| "jdiv NInf NInf = NaN"

text \<open>\<open>a < b\<close> on numbers: false as soon as one side is \<open>NaN\<close>.\<close>

fun jlt :: "jsnum \<Rightarrow> jsnum \<Rightarrow> bool" where
  "jlt (Fin a) (Fin b) = (a < b)"
| "jlt NaN _ = False"
| "jlt _ NaN = False"
| "jlt _ NInf = False"
| "jlt PInf _ = False"
| "jlt NInf _ = True"
| "jlt _ PInf = True"

definition jgt :: "jsnum \<Rightarrow> jsnum \<Rightarrow> bool" where
  "jgt a b = jlt b a"

text \<open>
  \<open>Math.pow(base, exponent)\<close> for a finite exponent, after the ECMAScript definition
  of exponentiation: exponent zero gives 1 whatever the base, a negative base with a
  fractional exponent gives \<open>NaN\<close>, a zero base with a negative exponent gives
  \<open>Infinity\<close>.
\<close>

definition is_integer :: "real \<Rightarrow> bool" where
  "is_integer y = (of_int \<lfloor>y\<rfloor> = y)"

definition is_odd_integer :: "real \<Rightarrow> bool" where
  "is_odd_integer y = (is_integer y \<and> odd \<lfloor>y\<rfloor>)"

fun jpow :: "jsnum \<Rightarrow> real \<Rightarrow> jsnum" where
  "jpow (Fin b) y =
     (if y = 0 then Fin 1
      else if b = 0 then (if 0 < y then Fin 0 else PInf)
      else if is_integer y then Fin (b powi \<lfloor>y\<rfloor>)
      else if 0 < b then Fin (b powr y) else NaN)"
| "jpow NaN y = (if y = 0 then Fin 1 else NaN)"
| "jpow PInf y = (if y = 0 then Fin 1 else if 0 < y then PInf else Fin 0)"
| "jpow NInf y =
     (if y = 0 then Fin 1
      else if 0 < y then (if is_odd_integer y then NInf else PInf) else Fin 0)"

text \<open>\<open>Math.round\<close>: the nearest integer, a tie going up.\<close>

fun jround :: "jsnum \<Rightarrow> jsnum" where
  "jround (Fin a) = Fin (of_int \<lfloor>a + 1 / 2\<rfloor>)"
| "jround PInf = PInf"
| "jround NInf = NInf"
| "jround NaN = NaN"

section \<open>Errors\<close>

text \<open>
  Every \<open>throw new Error(...)\<close> of the two entry points. The sign requirement is thrown
  by both with the function's own name in the message; the constructor carries it.
\<close>

datatype error =
    InvalidCashFlowSigns string
  | LengthMismatch
  | SearchExhausted
  | DidNotConverge


section \<open>The sign requirement\<close>

text \<open>
  Both entry points scan the series once, raising the flag \<open>positive\<close> at an entry
  \<open>> 0\<close> and the flag \<open>negative\<close> at an entry \<open>< 0\<close>.
\<close>

definition scan_signs :: "real list \<Rightarrow> bool \<times> bool" where
  "scan_signs cashFlow =
     fold (\<lambda>value (positive, negative).
             (if 0 < value then True else positive,
              if value < 0 then True else negative))
          cashFlow (False, False)"

section \<open>seekZero\<close>

text \<open>
  \<open>seekZero(fn)\<close> calls \<open>fn\<close>, which may throw and may change state of its own (for
  \<open>IRR\<close>, the counter of evaluations). So the objective is a function of the point and
  the state, giving an error or the value with the new state. Neither loop has a
  bound: a run that never leaves a loop is the value \<open>None\<close>.
  The variable \<open>x\<close> starts at 1 and moves by \<open>+1\<close> and \<open>-0.01\<close> only, so it is a
  finite number throughout.
\<close>

type_synonym ('e, 's) objective = "real \<Rightarrow> 's \<Rightarrow> 'e + jsnum \<times> 's"

partial_function (option) scan_up ::
  "('e, 's) objective \<Rightarrow> real \<Rightarrow> 's \<Rightarrow> ('e + real \<times> 's) option" where
  "scan_up fn x s =
     (case fn x s of
        Inl e \<Rightarrow> Some (Inl e)
      | Inr (v, s') \<Rightarrow>
          if jgt v (Fin 0) then scan_up fn (x + 1) s' else Some (Inr (x, s')))"

partial_function (option) scan_down ::
  "('e, 's) objective \<Rightarrow> real \<Rightarrow> 's \<Rightarrow> ('e + real \<times> 's) option" where
  "scan_down fn x s =
     (case fn x s of
        Inl e \<Rightarrow> Some (Inl e)
      | Inr (v, s') \<Rightarrow>
          if jlt v (Fin 0) then scan_down fn (x - 1 / 100) s' else Some (Inr (x, s')))"

definition seekZero :: "('e, 's) objective \<Rightarrow> 's \<Rightarrow> ('e + real \<times> 's) option" where
  "seekZero fn s =
     (case scan_up fn 1 s of
        None \<Rightarrow> None
      | Some (Inl e) \<Rightarrow> Some (Inl e)
      | Some (Inr (x, s1)) \<Rightarrow>
          (case scan_down fn x s1 of
             None \<Rightarrow> None
           | Some (Inl e) \<Rightarrow> Some (Inl e)
           | Some (Inr (x', s2)) \<Rightarrow> Some (Inr (x' + 1 / 100, s2))))"

section \<open>IRR\<close>

text \<open>
  The loop of the objective, \<open>for (i = 1; i < cashFlow.length; i++)\<close>, adding
  \<open>cashFlow[i] / Math.pow(rrate, i)\<close> to the running value.
\<close>

function npv_loop :: "real list \<Rightarrow> real \<Rightarrow> nat \<Rightarrow> jsnum \<Rightarrow> jsnum" where
  "npv_loop cashFlow rrate i acc =
     (if i < length cashFlow
      then npv_loop cashFlow rrate (i + 1)
             (jadd acc (jdiv (Fin (cashFlow ! i)) (jpow (Fin rrate) (real i))))
      else acc)"
  by pat_completeness auto
termination
  by (relation "measure (\<lambda>(cashFlow, rrate, i, acc). length cashFlow - i)") auto

text \<open>
  The value the objective computes at a rate. \<open>cashFlow[0]\<close> of an empty array is
  \<open>undefined\<close>, which adds and compares as \<open>NaN\<close>; \<open>IRR\<close> never comes here with one.
\<close>

definition npv_value :: "real list \<Rightarrow> real \<Rightarrow> jsnum" where
  "npv_value cashFlow rate =
     (let rrate = 1 + rate / 100
      in npv_loop cashFlow rrate 1 (case cashFlow of [] \<Rightarrow> NaN | c # _ \<Rightarrow> Fin c))"

text \<open>
  The closure \<open>npv\<close> of \<open>IRR\<close>: the state is \<open>numberOfTries\<close>, incremented first and
  then compared with \<open>depth\<close>.
\<close>

definition npv :: "real \<Rightarrow> real list \<Rightarrow> (error, nat) objective" where
  "npv depth cashFlow rate numberOfTries =
     (let numberOfTries = numberOfTries + 1
      in if depth < real numberOfTries then Inl SearchExhausted
         else Inr (npv_value cashFlow rate, numberOfTries))"

text \<open>
  The objective called on a list of rates one after the other, each call starting from
  the counter the call before left, as the successive calls inside \<open>IRR\<close> do.
\<close>

fun npv_calls :: "real \<Rightarrow> real list \<Rightarrow> real list \<Rightarrow> nat \<Rightarrow> error + jsnum list \<times> nat" where
  "npv_calls depth cf [] numberOfTries = Inr ([], numberOfTries)"
| "npv_calls depth cf (rate # rates) numberOfTries =
     (case npv depth cf rate numberOfTries of
        Inl e \<Rightarrow> Inl e
      | Inr (v, numberOfTries') \<Rightarrow>
          (case npv_calls depth cf rates numberOfTries' of
             Inl e \<Rightarrow> Inl e
           | Inr (vs, numberOfTries'') \<Rightarrow> Inr (v # vs, numberOfTries'')))"

text \<open>\<open>Math.round(x * 100) / 100\<close> on a finite number.\<close>

definition round2 :: "real \<Rightarrow> real" where
  "round2 x = of_int \<lfloor>x * 100 + 1 / 2\<rfloor> / 100"

record CashFlow =
  depth :: real
  cashFlow :: "real list"

definition IRR :: "CashFlow \<Rightarrow> (error + real) option" where
  "IRR cfs =
     (let numberOfTries = 1;
          (positive, negative) = scan_signs (cashFlow cfs)
      in if \<not> positive \<or> \<not> negative then Some (Inl (InvalidCashFlowSigns ''IRR''))
         else (case seekZero (npv (depth cfs) (cashFlow cfs)) numberOfTries of
                 None \<Rightarrow> None
               | Some (Inl e) \<Rightarrow> Some (Inl e)
               | Some (Inr (x, _)) \<Rightarrow> Some (Inr (round2 x))))"

section \<open>XIRR\<close>

text \<open>
  A \<open>Date\<close> is modelled by its time value, the milliseconds since the epoch that
  \<open>getTime()\<close> returns for a valid date.
\<close>

type_synonym date = int

definition durYear :: "date \<Rightarrow> date \<Rightarrow> real" where
  "durYear date1 date2 =
     (let day = 24 * 60 * 60 * 1000;
          diffDays = \<lfloor>\<bar>real_of_int (date2 - date1) / day\<bar> + 1 / 2\<rfloor>
      in real_of_int diffDays / 365)"

text \<open>
  \<open>const durs = [0]; for (i = 1; i < dts.length; i++) durs.push(durYear(dts[0], dts[i]))\<close>
\<close>

function durs_loop :: "date list \<Rightarrow> nat \<Rightarrow> real list \<Rightarrow> real list" where
  "durs_loop dts i durs =
     (if i < length dts
      then durs_loop dts (i + 1) (durs @ [durYear (dts ! 0) (dts ! i)])
      else durs)"
  by pat_completeness auto
termination
  by (relation "measure (\<lambda>(dts, i, durs). length dts - i)") auto

definition durations :: "date list \<Rightarrow> real list" where
  "durations dts = durs_loop dts 1 [0]"

text \<open>
  The summands of the two loops of \<open>sumEq\<close>. Both loops run over the indices of
  \<open>cfs\<close>; past the end of \<open>durs\<close> the entry is \<open>undefined\<close>, which makes the power,
  the product and so the summand \<open>NaN\<close> (\<open>XIRR\<close> always passes lists of one length).
\<close>

definition fx_term :: "real list \<Rightarrow> real list \<Rightarrow> jsnum \<Rightarrow> nat \<Rightarrow> jsnum" where
  "fx_term cfs durs guess i =
     (if i < length durs
      then jdiv (Fin (cfs ! i)) (jpow (jadd (Fin 1) guess) (durs ! i))
      else NaN)"

definition fdx_term :: "real list \<Rightarrow> real list \<Rightarrow> jsnum \<Rightarrow> nat \<Rightarrow> jsnum" where
  "fdx_term cfs durs guess i =
     (if i < length durs
      then jmul (Fin (- (cfs ! i) * (durs ! i))) (jpow (jadd (Fin 1) guess) (- 1 - durs ! i))
      else NaN)"

function sum_fx_loop :: "real list \<Rightarrow> real list \<Rightarrow> jsnum \<Rightarrow> nat \<Rightarrow> jsnum \<Rightarrow> jsnum" where
  "sum_fx_loop cfs durs guess i sum_fx =
     (if i < length cfs
      then sum_fx_loop cfs durs guess (i + 1) (jadd sum_fx (fx_term cfs durs guess i))
      else sum_fx)"
  by pat_completeness auto
termination
  by (relation "measure (\<lambda>(cfs, durs, guess, i, sum_fx). length cfs - i)") auto

function sum_fdx_loop :: "real list \<Rightarrow> real list \<Rightarrow> jsnum \<Rightarrow> nat \<Rightarrow> jsnum \<Rightarrow> jsnum" where
  "sum_fdx_loop cfs durs guess i sum_fdx =
     (if i < length cfs
      then sum_fdx_loop cfs durs guess (i + 1) (jadd sum_fdx (fdx_term cfs durs guess i))
      else sum_fdx)"
  by pat_completeness auto
termination
  by (relation "measure (\<lambda>(cfs, durs, guess, i, sum_fdx). length cfs - i)") auto

definition sum_fx :: "real list \<Rightarrow> real list \<Rightarrow> jsnum \<Rightarrow> jsnum" where
  "sum_fx cfs durs guess = sum_fx_loop cfs durs guess 0 (Fin 0)"

definition sum_fdx :: "real list \<Rightarrow> real list \<Rightarrow> jsnum \<Rightarrow> jsnum" where
  "sum_fdx cfs durs guess = sum_fdx_loop cfs durs guess 0 (Fin 0)"

definition sumEq :: "real list \<Rightarrow> real list \<Rightarrow> jsnum \<Rightarrow> jsnum" where
  "sumEq cfs durs guess = jdiv (sum_fx cfs durs guess) (sum_fdx cfs durs guess)"

text \<open>
  \<open>toFixed(5)\<close>, after the ECMAScript definition. A number that is not finite gives its
  name. Otherwise the sign is split off, \<open>n\<close> is the integer with \<open>n / 10^5\<close> nearest
  to the magnitude (the larger one at a tie), and the text is the sign, the digits of
  \<open>n\<close> padded with zeros to six at least, and a point before the last five.
  From \<open>10^21\<close> on the result is the number's ordinary text in exponent notation, which
  identifies the number; the model keeps the number in its place.
\<close>

datatype jstext = Text string | Exponent real

function decimal :: "nat \<Rightarrow> string" where
  "decimal n =
     (if n < 10 then [''0123456789'' ! n]
      else decimal (n div 10) @ [''0123456789'' ! (n mod 10)])"
  by pat_completeness auto
termination
  by (relation "measure id") auto

fun toFixed5 :: "jsnum \<Rightarrow> jstext" where
  "toFixed5 (Fin x) =
     (let s = (if x < 0 then ''-'' else []);
          a = (if x < 0 then - x else x)
      in if 10 ^ 21 \<le> a then Exponent x
         else let n = nat \<lfloor>a * 10 ^ 5 + 1 / 2\<rfloor>;
                  m = decimal n;
                  m = replicate (6 - length m) (CHR ''0'') @ m;
                  k = length m
              in Text (s @ take (k - 5) m @ ''.'' @ drop (k - 5) m))"
| "toFixed5 PInf = Text ''Infinity''"
| "toFixed5 NInf = Text ''-Infinity''"
| "toFixed5 NaN = Text ''NaN''"

text \<open>
  The \<open>do ... while\<close> loop of \<open>XIRR\<close>: the body runs, then the texts are compared and
  the limit is tested. The loop gives the last two guesses.
\<close>

function xirr_loop :: "real list \<Rightarrow> real list \<Rightarrow> jsnum \<Rightarrow> int \<Rightarrow> jsnum \<times> jsnum" where
  "xirr_loop cfs durs guess limit =
     (let guessLast = guess;
          guess' = jsub guessLast (sumEq cfs durs guessLast);
          limit' = limit - 1
      in if toFixed5 guessLast \<noteq> toFixed5 guess' \<and> 0 < limit'
         then xirr_loop cfs durs guess' limit'
         else (guessLast, guess'))"
  by pat_completeness auto
termination
  by (relation "measure (\<lambda>(cfs, durs, guess, limit). nat limit)") auto

text \<open>The third parameter is optional, \<open>guess: number = 0\<close>.\<close>

definition XIRR :: "real list \<Rightarrow> date list \<Rightarrow> real option \<Rightarrow> error + jsnum" where
  "XIRR cfs dts guess_arg =
     (let guess = (case guess_arg of None \<Rightarrow> Fin 0 | Some g \<Rightarrow> Fin g)
      in if length cfs \<noteq> length dts then Inl LengthMismatch
         else let (positive, negative) = scan_signs cfs
              in if \<not> positive \<or> \<not> negative then Inl (InvalidCashFlowSigns ''XIRR'')
                 else let limit = 100;
                          durs = durations dts;
                          (guessLast, guess) = xirr_loop cfs durs guess limit;
                          xirr = (if toFixed5 guessLast \<noteq> toFixed5 guess then None
                                  else Some (jmul guess (Fin 100)))
                      in (case xirr of
                            None \<Rightarrow> Inl DidNotConverge
                          | Some x \<Rightarrow> Inr (jdiv (jround (jmul x (Fin 100))) (Fin 100))))"

declare npv_loop.simps [simp del] durs_loop.simps [simp del] sum_fx_loop.simps [simp del]
  sum_fdx_loop.simps [simp del] decimal.simps [simp del] xirr_loop.simps [simp del]
  toFixed5.simps [simp del]

section \<open>Notions used to state the properties\<close>



text \<open>
  The objective of \<open>IRR\<close> as a sum of real numbers, for a rate above \<open>-100\<close>, where
  no term divides by zero.
\<close>

definition npv_sum :: "real list \<Rightarrow> real \<Rightarrow> real" where
  "npv_sum cf rate = (\<Sum>j<length cf. cf ! j / (1 + rate / 100) ^ j)"

text \<open>
  The update of the loop body of \<open>XIRR\<close>, \<open>guess = guessLast - sumEq(cfs, durs, guessLast)\<close>,
  the sequence of guesses it produces from a first guess, whether two consecutive
  guesses have the same text, the first guess \<open>XIRR\<close> takes from its optional
  parameter, and the index at which a loop of at most \<open>n\<close> rounds stops.
\<close>

definition newton_step :: "real list \<Rightarrow> real list \<Rightarrow> jsnum \<Rightarrow> jsnum" where
  "newton_step cfs durs g = jsub g (sumEq cfs durs g)"

definition guesses :: "real list \<Rightarrow> real list \<Rightarrow> jsnum \<Rightarrow> nat \<Rightarrow> jsnum" where
  "guesses cfs durs g0 k = (newton_step cfs durs ^^ k) g0"

definition agree :: "real list \<Rightarrow> real list \<Rightarrow> jsnum \<Rightarrow> nat \<Rightarrow> bool" where
  "agree cfs durs g0 k \<longleftrightarrow>
     toFixed5 (guesses cfs durs g0 k) = toFixed5 (guesses cfs durs g0 (Suc k))"


definition stop_index :: "real list \<Rightarrow> real list \<Rightarrow> jsnum \<Rightarrow> nat \<Rightarrow> nat" where
  "stop_index cfs durs g n =
     (if \<exists>k<n. agree cfs durs g k then LEAST k. agree cfs durs g k else n - 1)"



section \<open>The sign scan\<close>

lemma scan_signs_fold:
  "fold (\<lambda>value (positive, negative).
             (if 0 < value then True else positive,
              if value < 0 then True else negative)) cf (p, n)
   = (p \<or> (\<exists>v\<in>set cf. (0::real) < v), n \<or> (\<exists>v\<in>set cf. v < 0))"
  by (induction cf arbitrary: p n) auto

lemma scan_signs_eq:
  "scan_signs cf = ((\<exists>v\<in>set cf. 0 < v), (\<exists>v\<in>set cf. v < 0))"
  by (simp add: scan_signs_def scan_signs_fold)

section \<open>The two scans of seekZero\<close>

lemma scan_up_induct [consumes 1, case_names err stop go]:
  assumes run: "scan_up fn x s = Some y"
    and err: "\<And>x s e. fn x s = Inl e \<Longrightarrow> P x s (Inl e)"
    and stop: "\<And>x s v s'. fn x s = Inr (v, s') \<Longrightarrow> \<not> jgt v (Fin 0) \<Longrightarrow> P x s (Inr (x, s'))"
    and go: "\<And>x s v s' y. fn x s = Inr (v, s') \<Longrightarrow> jgt v (Fin 0) \<Longrightarrow> P (x + 1) s' y \<Longrightarrow> P x s y"
  shows "P x s y"
proof -
  have "(case ((fn, x), s) of (a, b) \<Rightarrow> (case a of (a, b) \<Rightarrow> (\<lambda>g x s y. g = fn \<longrightarrow> P x s y) a b) b) y"
  proof (rule scan_up.raw_induct[where P = "\<lambda>g x s y. g = fn \<longrightarrow> P x s y" and xa = "((fn, x), s)" and y = y])
    fix up :: "('a, 'b) objective \<Rightarrow> real \<Rightarrow> 'b \<Rightarrow> ('a + real \<times> 'b) option" and g x s y
    assume IH: "\<And>g x s y. up g x s = Some y \<Longrightarrow> g = fn \<longrightarrow> P x s y"
      and body: "(case g x s of Inl e \<Rightarrow> Some (Inl e)
        | Inr (v, s') \<Rightarrow> if jgt v (Fin 0) then up g (x + 1) s' else Some (Inr (x, s'))) = Some y"
    show "g = fn \<longrightarrow> P x s y"
    proof
      assume g: "g = fn"
      show "P x s y"
      proof (cases "fn x s")
        case (Inl e)
        with body g err show ?thesis by auto
      next
        case (Inr p)
        obtain v s' where p: "p = (v, s')" by (cases p)
        show ?thesis
        proof (cases "jgt v (Fin 0)")
          case True
          with body g Inr p have "up fn (x + 1) s' = Some y" by simp
          from IH[OF this] have "P (x + 1) s' y" by simp
          with go Inr p True show ?thesis by blast
        next
          case False
          with body g Inr p have "y = Inr (x, s')" by simp
          with stop Inr p False show ?thesis by blast
        qed
      qed
    qed
  next
    show "(case ((fn, x), s) of (a, b) \<Rightarrow> (case a of (a, b) \<Rightarrow> scan_up a b) b) = Some y"
      using run by simp
  qed
  then show ?thesis by simp
qed


lemma scan_down_induct [consumes 1, case_names err stop go]:
  assumes run: "scan_down fn x s = Some y"
    and err: "\<And>x s e. fn x s = Inl e \<Longrightarrow> P x s (Inl e)"
    and stop: "\<And>x s v s'. fn x s = Inr (v, s') \<Longrightarrow> \<not> jlt v (Fin 0) \<Longrightarrow> P x s (Inr (x, s'))"
    and go: "\<And>x s v s' y. fn x s = Inr (v, s') \<Longrightarrow> jlt v (Fin 0) \<Longrightarrow> P (x - 1 / 100) s' y \<Longrightarrow> P x s y"
  shows "P x s y"
proof -
  have "(case ((fn, x), s) of (a, b) \<Rightarrow> (case a of (a, b) \<Rightarrow> (\<lambda>g x s y. g = fn \<longrightarrow> P x s y) a b) b) y"
  proof (rule scan_down.raw_induct[where P = "\<lambda>g x s y. g = fn \<longrightarrow> P x s y" and xa = "((fn, x), s)" and y = y])
    fix up :: "('a, 'b) objective \<Rightarrow> real \<Rightarrow> 'b \<Rightarrow> ('a + real \<times> 'b) option" and g x s y
    assume IH: "\<And>g x s y. up g x s = Some y \<Longrightarrow> g = fn \<longrightarrow> P x s y"
      and body: "(case g x s of Inl e \<Rightarrow> Some (Inl e)
        | Inr (v, s') \<Rightarrow> if jlt v (Fin 0) then up g (x - 1 / 100) s' else Some (Inr (x, s'))) = Some y"
    show "g = fn \<longrightarrow> P x s y"
    proof
      assume g: "g = fn"
      show "P x s y"
      proof (cases "fn x s")
        case (Inl e)
        with body g err show ?thesis by auto
      next
        case (Inr p)
        obtain v s' where p: "p = (v, s')" by (cases p)
        show ?thesis
        proof (cases "jlt v (Fin 0)")
          case True
          with body g Inr p have "up fn (x - 1 / 100) s' = Some y" by simp
          from IH[OF this] have "P (x - 1 / 100) s' y" by simp
          with go Inr p True show ?thesis by blast
        next
          case False
          with body g Inr p have "y = Inr (x, s')" by simp
          with stop Inr p False show ?thesis by blast
        qed
      qed
    qed
  next
    show "(case ((fn, x), s) of (a, b) \<Rightarrow> (case a of (a, b) \<Rightarrow> scan_down a b) b) = Some y"
      using run by simp
  qed
  then show ?thesis by simp
qed


lemma scan_up_run:
  assumes "\<forall>k<n. \<exists>v. fn (x + real k) (\<sigma> k) = Inr (v, \<sigma> (Suc k)) \<and> jgt v (Fin 0)"
    and "fn (x + real n) (\<sigma> n) = Inr (v, s')" "\<not> jgt v (Fin 0)"
  shows "scan_up fn x (\<sigma> 0) = Some (Inr (x + real n, s'))"
  using assms
proof (induction n arbitrary: x \<sigma>)
  case 0
  then show ?case by (subst scan_up.simps) simp
next
  case (Suc n)
  have shift: "x + real (Suc k) = x + 1 + real k" for k
    by simp
  from Suc.prems(1) obtain v0 where v0: "fn x (\<sigma> 0) = Inr (v0, \<sigma> 1)" "jgt v0 (Fin 0)"
    by force
  have "scan_up fn (x + 1) ((\<lambda>k. \<sigma> (Suc k)) 0) = Some (Inr (x + 1 + real n, s'))"
  proof (rule Suc.IH)
    show "\<forall>k<n. \<exists>v. fn (x + 1 + real k) (\<sigma> (Suc k)) = Inr (v, \<sigma> (Suc (Suc k))) \<and> jgt v (Fin 0)"
    proof (intro allI impI)
      fix k assume "k < n"
      then have "Suc k < Suc n" by simp
      with Suc.prems(1) have "\<exists>v. fn (x + real (Suc k)) (\<sigma> (Suc k)) = Inr (v, \<sigma> (Suc (Suc k))) \<and> jgt v (Fin 0)"
        by blast
      then show "\<exists>v. fn (x + 1 + real k) (\<sigma> (Suc k)) = Inr (v, \<sigma> (Suc (Suc k))) \<and> jgt v (Fin 0)"
        by (simp only: shift)
    qed
    from Suc.prems(2) show "fn (x + 1 + real n) (\<sigma> (Suc n)) = Inr (v, s')"
      by (simp only: shift)
    show "\<not> jgt v (Fin 0)" by (rule Suc.prems(3))
  qed
  then show ?case using v0 by (subst scan_up.simps) (simp only: shift, simp)
qed

lemma scan_down_run:
  assumes "\<forall>j<m. \<exists>v. fn (x - real j / 100) (\<sigma> j) = Inr (v, \<sigma> (Suc j)) \<and> jlt v (Fin 0)"
    and "fn (x - real m / 100) (\<sigma> m) = Inr (v, s')" "\<not> jlt v (Fin 0)"
  shows "scan_down fn x (\<sigma> 0) = Some (Inr (x - real m / 100, s'))"
  using assms
proof (induction m arbitrary: x \<sigma>)
  case 0
  then show ?case by (subst scan_down.simps) simp
next
  case (Suc m)
  have shift: "x - real (Suc j) / 100 = x - 1 / 100 - real j / 100" for j
    by (simp add: field_simps)
  from Suc.prems(1) obtain v0 where v0: "fn x (\<sigma> 0) = Inr (v0, \<sigma> 1)" "jlt v0 (Fin 0)"
    by force
  have "scan_down fn (x - 1 / 100) ((\<lambda>k. \<sigma> (Suc k)) 0) = Some (Inr (x - 1 / 100 - real m / 100, s'))"
  proof (rule Suc.IH)
    show "\<forall>j<m. \<exists>v. fn (x - 1 / 100 - real j / 100) (\<sigma> (Suc j)) = Inr (v, \<sigma> (Suc (Suc j))) \<and> jlt v (Fin 0)"
    proof (intro allI impI)
      fix j assume "j < m"
      then have "Suc j < Suc m" by simp
      with Suc.prems(1) have "\<exists>v. fn (x - real (Suc j) / 100) (\<sigma> (Suc j)) = Inr (v, \<sigma> (Suc (Suc j))) \<and> jlt v (Fin 0)"
        by blast
      then show "\<exists>v. fn (x - 1 / 100 - real j / 100) (\<sigma> (Suc j)) = Inr (v, \<sigma> (Suc (Suc j))) \<and> jlt v (Fin 0)"
        by (simp only: shift)
    qed
    from Suc.prems(2) show "fn (x - 1 / 100 - real m / 100) (\<sigma> (Suc m)) = Inr (v, s')"
      by (simp only: shift)
    show "\<not> jlt v (Fin 0)" by (rule Suc.prems(3))
  qed
  then show ?case using v0 by (subst scan_down.simps) (simp only: shift, simp)
qed

section \<open>XIRR: the length test and the durations\<close>

text \<open>
  Claim C8. \<open>XIRR\<close> raises the length-mismatch error exactly when the array of cash
  flows and the array of dates differ in length. The equivalence has no side condition:
  whatever the signs of the series, the dates and the guess, a difference in length
  gives this error and no other, so the test comes before the sign test, before any
  duration and before any iteration.
\<close>

theorem XIRR_length_mismatch:
  "XIRR cfs dts guess = Inl LengthMismatch \<longleftrightarrow> length cfs \<noteq> length dts"
  by (simp add: XIRR_def Let_def split: prod.splits option.splits)

theorem XIRR_length_mismatch_witness:
  "XIRR [1, 2] [0] None = Inl LengthMismatch"
  using XIRR_length_mismatch [of "[1, 2]" "[0]" None] by simp






section \<open>seekZero on an objective without state\<close>








section \<open>IRR: the counter, termination and the sign requirement\<close>

lemma npv_cases:
  "npv d cf rate c =
     (if d < real c + 1 then Inl SearchExhausted else Inr (npv_value cf rate, c + 1))"
  by (simp add: npv_def Let_def add.commute)


lemma npv_calls_Inr:
  "npv_calls d cf rates c = Inr (vs, c') \<Longrightarrow> c' = c + length rates"
proof (induction rates arbitrary: c vs)
  case Nil
  then show ?case by simp
next
  case (Cons rate rates)
  from Cons.prems obtain ws where "npv_calls d cf rates (Suc c) = Inr (ws, c')"
    by (auto simp: npv_cases split: if_splits sum.splits prod.splits)
  from Cons.IH[OF this] show ?case by simp
qed


lemma scan_up_npv_counter:
  assumes "scan_up (npv d cf) x c = Some y"
  shows "(\<forall>x' c'. y = Inr (x', c') \<longrightarrow> c < c' \<and> real c' \<le> d) \<and> (\<forall>e. y = Inl e \<longrightarrow> e = SearchExhausted)"
  using assms
proof (induction rule: scan_up_induct)
  case (err x s e)
  then show ?case by (simp add: npv_cases split: if_splits)
next
  case (stop x s v s')
  then show ?case by (simp add: npv_cases split: if_splits)
next
  case (go x s v s' y)
  then show ?case by (auto simp: npv_cases split: if_splits)
qed

lemma scan_down_npv_counter:
  assumes "scan_down (npv d cf) x c = Some y"
  shows "(\<forall>x' c'. y = Inr (x', c') \<longrightarrow> c < c' \<and> real c' \<le> d) \<and> (\<forall>e. y = Inl e \<longrightarrow> e = SearchExhausted)"
  using assms
proof (induction rule: scan_down_induct)
  case (err x s e)
  then show ?case by (simp add: npv_cases split: if_splits)
next
  case (stop x s v s')
  then show ?case by (simp add: npv_cases split: if_splits)
next
  case (go x s v s' y)
  then show ?case by (auto simp: npv_cases split: if_splits)
qed

lemma seekZero_npv_Inl:
  assumes "seekZero (npv d cf) c = Some (Inl e)"
  shows "e = SearchExhausted"
  using assms scan_up_npv_counter scan_down_npv_counter
  by (fastforce simp: seekZero_def split: option.splits sum.splits)












text \<open>
  Claim C7, as amended. \<open>IRR\<close> raises the sign-requirement error if and only if the
  series has no entry \<open>> 0\<close> or no entry \<open>< 0\<close>, whatever \<open>depth\<close> is, also a depth
  at which the first evaluation of the objective would fail. \<open>XIRR\<close> raises it if
  and only if, in addition, the two arrays have the same length, whatever the dates
  and the guess are.
\<close>

theorem IRR_sign_requirement:
  "(IRR cfs = Some (Inl (InvalidCashFlowSigns ''IRR'')) \<longleftrightarrow>
      \<not> (\<exists>v\<in>set (cashFlow cfs). 0 < v) \<or> \<not> (\<exists>v\<in>set (cashFlow cfs). v < 0))
   \<and> (XIRR cf dts guess = Inl (InvalidCashFlowSigns ''XIRR'') \<longleftrightarrow>
      length cf = length dts \<and> (\<not> (\<exists>v\<in>set cf. 0 < v) \<or> \<not> (\<exists>v\<in>set cf. v < 0)))"
proof (intro conjI)
  show "IRR cfs = Some (Inl (InvalidCashFlowSigns ''IRR'')) \<longleftrightarrow>
      \<not> (\<exists>v\<in>set (cashFlow cfs). 0 < v) \<or> \<not> (\<exists>v\<in>set (cashFlow cfs). v < 0)"
    using seekZero_npv_Inl[of "depth cfs" "cashFlow cfs" 1]
    by (auto simp: IRR_def scan_signs_eq Let_def split: option.splits sum.splits)
  show "XIRR cf dts guess = Inl (InvalidCashFlowSigns ''XIRR'') \<longleftrightarrow>
      length cf = length dts \<and> (\<not> (\<exists>v\<in>set cf. 0 < v) \<or> \<not> (\<exists>v\<in>set cf. v < 0))"
    by (auto simp: XIRR_def scan_signs_eq Let_def split: prod.splits option.splits if_splits)
qed

theorem IRR_sign_requirement_witness:
  "IRR \<lparr>depth = 0, cashFlow = [1, 2]\<rparr> = Some (Inl (InvalidCashFlowSigns ''IRR''))
   \<and> XIRR [- 1, - 2] [0, 0] None = Inl (InvalidCashFlowSigns ''XIRR'')"
  using IRR_sign_requirement [of "\<lparr>depth = 0, cashFlow = [1, 2]\<rparr>" "[- 1, - 2]" "[0, 0]" None]
  by simp

text \<open>
  Claim C7 as first stated has no condition on the lengths.
  With arrays of different lengths \<open>XIRR\<close> raises the length-mismatch error, not the
  sign-requirement error, also for a series that has no negative entry.
\<close>

theorem XIRR_length_test_precedes_sign_test:
  "XIRR [1] [] None = Inl LengthMismatch \<and> scan_signs [1] = (True, False)"
  by (simp add: XIRR_def scan_signs_def)

section \<open>IRR: the rate returned and the zeros of the objective\<close>

lemma jpow_index: "rr \<noteq> 0 \<Longrightarrow> 0 < i \<Longrightarrow> jpow (Fin rr) (real i) = Fin (rr ^ i)"
  by (simp add: is_integer_def)

lemma npv_loop_finite:
  assumes "rr \<noteq> 0" "0 < i"
  shows "npv_loop cf rr i (Fin a) = Fin (a + (\<Sum>j = i..<length cf. cf ! j / rr ^ j))"
  using assms
proof (induction cf rr i "Fin a" arbitrary: a rule: npv_loop.induct)
  case (1 cf rr i)
  show ?case
  proof (cases "i < length cf")
    case True
    have "npv_loop cf rr i (Fin a) = npv_loop cf rr (i + 1) (Fin (a + cf ! i / rr ^ i))"
      using True 1(2,3) by (subst npv_loop.simps) (simp add: jpow_index del: jpow.simps)
    also have "\<dots> = Fin (a + cf ! i / rr ^ i + (\<Sum>j = i + 1..<length cf. cf ! j / rr ^ j))"
      using 1(1)[OF True _ 1(2)] True 1(2,3) by (simp add: jpow_index del: jpow.simps)
    also have "a + cf ! i / rr ^ i + (\<Sum>j = i + 1..<length cf. cf ! j / rr ^ j)
        = a + (\<Sum>j = i..<length cf. cf ! j / rr ^ j)"
      using True by (simp add: sum.atLeast_Suc_lessThan)
    finally show ?thesis .
  next
    case False
    then show ?thesis by (subst npv_loop.simps) simp
  qed
qed

lemma npv_value_finite:
  assumes "cf \<noteq> []" "- 100 < rate"
  shows "npv_value cf rate = Fin (npv_sum cf rate)"
proof -
  from assms(1) obtain c cs where cf: "cf = c # cs" by (cases cf) auto
  have rr: "1 + rate / 100 \<noteq> 0" using assms(2) by simp
  have "{..<length cf} = insert 0 {1..<length cf}" using cf by auto
  then have "npv_sum cf rate = cf ! 0 + (\<Sum>j = 1..<length cf. cf ! j / (1 + rate / 100) ^ j)"
    by (simp add: npv_sum_def)
  with npv_loop_finite[OF rr, of 1 cf c] cf show ?thesis
    by (simp add: npv_value_def)
qed








section \<open>IRR on the series of the repository's test\<close>

text \<open>
  The test of the repository calls \<open>IRR({depth: 10000, cashFlow: [-6, 297, 307]})\<close>
  and expects a result between 4951 and 4952. The objective
  \<open>-6 + 297 / u + 307 / u\<^sup>2\<close>, with \<open>u = 1 + x / 100\<close>, has the sign of
  \<open>-6 u\<^sup>2 + 297 u + 307\<close>; the upward scan makes 4951 steps, the downward scan 71, and
  the result is 4951.3.
\<close>

lemma npv_value_test_series:
  assumes "- 100 < x"
  shows "npv_value [- 6, 297, 307] x =
     Fin ((- 6 * (1 + x / 100)\<^sup>2 + 297 * (1 + x / 100) + 307) / (1 + x / 100)\<^sup>2)"
proof -
  define u where "u = 1 + x / 100"
  have u: "u \<noteq> 0" using assms by (simp add: u_def)
  have "npv_sum [- 6, 297, 307] x = - 6 + 297 / u + 307 / u\<^sup>2"
    by (simp add: npv_sum_def lessThan_Suc eval_nat_numeral u_def)
  also have "\<dots> = (- 6 * u\<^sup>2 + 297 * u + 307) / u\<^sup>2"
    using u by (simp add: field_simps power2_eq_square)
  finally show ?thesis using assms by (simp add: npv_value_finite u_def)
qed

lemma test_series_positive:
  fixes u :: real
  assumes "- 101 / 100 \<le> u" "u \<le> 5051 / 100"
  shows "0 < - 6 * u\<^sup>2 + 297 * u + 307"
proof -
  have "- 6 * u\<^sup>2 + 297 * u + 307 = 6 * ((5051 / 100 - u) * (u + 101 / 100)) + 9094 / 10000"
    by (simp add: field_simps power2_eq_square)
  moreover have "0 \<le> (5051 / 100 - u) * (u + 101 / 100)"
    using assms by (intro mult_nonneg_nonneg) simp_all
  ultimately show ?thesis by simp
qed

lemma test_series_negative:
  fixes u :: real
  assumes "50513 / 1000 \<le> u"
  shows "- 6 * u\<^sup>2 + 297 * u + 307 < 0"
proof -
  have "- 6 * u\<^sup>2 + 297 * u + 307 = - (6 * ((u - 50513 / 1000) * (u + 1013 / 1000))) - 18014 / 1000000"
    by (simp add: field_simps power2_eq_square)
  moreover have "0 \<le> (u - 50513 / 1000) * (u + 1013 / 1000)"
    using assms by (intro mult_nonneg_nonneg) simp_all
  ultimately show ?thesis by simp
qed

lemma IRR_test_series:
  "IRR \<lparr>depth = 10000, cashFlow = [- 6, 297, 307]\<rparr> = Some (Inr (49513 / 10))"
proof -
  let ?cf = "[- 6, 297, 307] :: real list"
  let ?fn = "npv 10000 ?cf"
  have pos: "jgt (npv_value ?cf x) (Fin 0)" if "0 \<le> x" "x \<le> 4951" for x
  proof -
    have "0 < - 6 * (1 + x / 100)\<^sup>2 + 297 * (1 + x / 100) + 307"
      using that by (intro test_series_positive) simp_all
    moreover have "0 < (1 + x / 100)\<^sup>2" using that by simp
    ultimately show ?thesis using that by (simp add: npv_value_test_series jgt_def)
  qed
  have neg: "jlt (npv_value ?cf x) (Fin 0)" if "49513 / 10 \<le> x" for x
  proof -
    have "- 6 * (1 + x / 100)\<^sup>2 + 297 * (1 + x / 100) + 307 < 0"
      using that by (intro test_series_negative) simp
    moreover have "0 < (1 + x / 100)\<^sup>2" using that by simp
    ultimately show ?thesis using that by (simp add: npv_value_test_series divide_neg_pos)
  qed
  have "scan_up ?fn 1 ((\<lambda>k. 1 + k) 0) = Some (Inr (1 + real (4951::nat), 4953))"
  proof (rule scan_up_run[where v = "npv_value ?cf 4952"])
    show "\<forall>k<4951. \<exists>v. ?fn (1 + real k) (1 + k) = Inr (v, 1 + Suc k) \<and> jgt v (Fin 0)"
      by (simp add: npv_cases pos)
    show "?fn (1 + real (4951::nat)) (1 + 4951) = Inr (npv_value ?cf 4952, 4953)"
      by (simp add: npv_cases)
    show "\<not> jgt (npv_value ?cf 4952) (Fin 0)"
      using neg[of 4952] by (cases "npv_value ?cf 4952") (auto simp: jgt_def)
  qed
  then have up: "scan_up ?fn 1 (Suc 0) = Some (Inr (4952, 4953))" by simp
  have "scan_down ?fn 4952 ((\<lambda>j. 4953 + j) 0) = Some (Inr (4952 - real (71::nat) / 100, 5025))"
  proof (rule scan_down_run[where v = "npv_value ?cf (495129 / 100)"])
    show "\<forall>j<71. \<exists>v. ?fn (4952 - real j / 100) (4953 + j) = Inr (v, 4953 + Suc j) \<and> jlt v (Fin 0)"
    proof (intro allI impI)
      fix j :: nat assume "j < 71"
      then have "real j \<le> 70" by simp
      then have "49513 / 10 \<le> 4952 - real j / 100" by simp
      from neg[OF this] \<open>j < 71\<close> show "\<exists>v. ?fn (4952 - real j / 100) (4953 + j) = Inr (v, 4953 + Suc j) \<and> jlt v (Fin 0)"
        by (simp add: npv_cases)
    qed
    show "?fn (4952 - real (71::nat) / 100) (4953 + 71) = Inr (npv_value ?cf (495129 / 100), 5025)"
      by (simp add: npv_cases)
    show "\<not> jlt (npv_value ?cf (495129 / 100)) (Fin 0)"
      by (simp add: npv_value_test_series power2_eq_square)
  qed
  then have down: "scan_down ?fn 4952 4953 = Some (Inr (495129 / 100, 5025))" by simp
  show ?thesis
    by (simp add: IRR_def scan_signs_def seekZero_def up down round2_def)
qed

section \<open>XIRR: the Newton iteration\<close>









lemma stop_index_agree:
  assumes "0 < n"
  shows "agree cfs durs g (stop_index cfs durs g n) \<longleftrightarrow> (\<exists>k<n. agree cfs durs g k)"
proof (cases "\<exists>k<n. agree cfs durs g k")
  case True
  then obtain k where "agree cfs durs g k" by blast
  then have "agree cfs durs g (LEAST k. agree cfs durs g k)" by (rule LeastI)
  with True show ?thesis by (simp add: stop_index_def)
next
  case False
  with assms show ?thesis by (auto simp: stop_index_def)
qed















lemma decimal_0: "decimal 0 = ''0''"
  by (simp add: decimal.simps)


text \<open>
  The comparison is one of texts: a guess just below zero and one just above zero both
  round to zero at five decimals, and their texts differ by the sign.
\<close>

lemma toFixed5_keeps_sign:
  "toFixed5 (Fin (- 1 / 1000000)) = Text ''-0.00000''"
  "toFixed5 (Fin (1 / 1000000)) = Text ''0.00000''"
  by (simp_all add: toFixed5.simps Let_def decimal_0 eval_nat_numeral)















end
